theory Spec2Isabelle
  imports Main "HOL-Library.AList" "HOL-Library.Word"
begin

section \<open>Bytes, errors, panics\<close>

text \<open>
  Go's \<^verbatim>\<open>[]byte\<close> and \<^verbatim>\<open>string\<close> are both sequences of bytes; an Isabelle
  \<^typ>\<open>char\<close> is one byte. A Go \<^verbatim>\<open>error\<close> result is an \<^typ>\<open>'e option\<close> (\<open>None\<close> is
  \<^verbatim>\<open>nil\<close>) or the left summand of a sum; a Go \<^verbatim>\<open>panic\<close> is the \<open>Panicked\<close> outcome.
\<close>

type_synonym bytes = string

type_synonym int64 = "64 word"

datatype error =
    NoSuchIndex string  \<comment> \<open>\<^verbatim>\<open>errors.Errorf("No such index: %s", name)\<close>\<close>
  | Failure string      \<comment> \<open>an error made by an injected capability\<close>

datatype 'a outcome = Panicked string | Returned 'a

section \<open>The key/value store\<close>

text \<open>
  Modelled from the spec: \<^verbatim>\<open>weave.KVStore\<close> is an external collaborator, not part of the
  sources. Section 6 of the specification gives its capability: \<^verbatim>\<open>get(key)\<close> yields the
  bytes or absent, \<^verbatim>\<open>set(key, bytes)\<close> and \<^verbatim>\<open>delete(key)\<close> cannot fail. The field \<open>kv\<close>
  is the content; \<open>calls\<close> lists every call made on the store, oldest first, so that a
  theorem can say which reads and writes an operation issues.
\<close>

datatype call = GetCall bytes | SetCall bytes bytes | DeleteCall bytes

record KVStore =
  kv :: "bytes \<rightharpoonup> bytes"
  calls :: "call list"

definition KVStore_Get :: "KVStore \<Rightarrow> bytes \<Rightarrow> KVStore \<times> bytes option" where
  "KVStore_Get db k = (db\<lparr>calls := calls db @ [GetCall k]\<rparr>, kv db k)"

definition KVStore_Set :: "KVStore \<Rightarrow> bytes \<Rightarrow> bytes \<Rightarrow> KVStore" where
  "KVStore_Set db k v = db\<lparr>kv := (kv db)(k \<mapsto> v), calls := calls db @ [SetCall k v]\<rparr>"

definition KVStore_Delete :: "KVStore \<Rightarrow> bytes \<Rightarrow> KVStore" where
  "KVStore_Delete db k = db\<lparr>kv := (kv db)(k := None), calls := calls db @ [DeleteCall k]\<rparr>"

section \<open>Objects\<close>

text \<open>
  The interfaces \<^verbatim>\<open>Object\<close> and \<^verbatim>\<open>Cloneable\<close> are declared outside the sources. An object
  is its key, its value and the methods of its dynamic type, which are parameters here:
  \<open>validate_m\<close> is \<^verbatim>\<open>Validate()\<close> of the object, \<open>marshal_m\<close> and \<open>unmarshal_m\<close> are
  \<^verbatim>\<open>Marshal()\<close> and \<^verbatim>\<open>Unmarshal(bz)\<close> of its value. \<^verbatim>\<open>Unmarshal\<close> overwrites the value in
  place; the model returns the new value. \<^verbatim>\<open>Clone()\<close> makes an independent copy, which for a
  HOL value is the value itself. Methods are taken to return; a panic inside one, or a nil
  prototype, is outside the model.
\<close>

record 'v Object =
  Key :: bytes
  Value :: 'v
  validate_m :: "bytes \<Rightarrow> 'v \<Rightarrow> error option"
  marshal_m :: "'v \<Rightarrow> error + bytes"
  unmarshal_m :: "'v \<Rightarrow> bytes \<Rightarrow> error + 'v"

definition Validate :: "'v Object \<Rightarrow> error option" where
  "Validate obj = validate_m obj (Key obj) (Value obj)"

definition Marshal :: "'v Object \<Rightarrow> error + bytes" where
  "Marshal obj = marshal_m obj (Value obj)"

definition Unmarshal :: "'v Object \<Rightarrow> bytes \<Rightarrow> error + 'v Object" where
  "Unmarshal obj bz =
     (case unmarshal_m obj (Value obj) bz of
        Inl err \<Rightarrow> Inl err
      | Inr v \<Rightarrow> Inr (obj\<lparr>Value := v\<rparr>))"

definition SetKey :: "'v Object \<Rightarrow> bytes \<Rightarrow> 'v Object" where
  "SetKey obj key = obj\<lparr>Key := key\<rparr>"

definition Clone :: "'v Object \<Rightarrow> 'v Object" where
  "Clone obj = obj"

section \<open>Indexes\<close>

text \<open>
  The type \<^verbatim>\<open>Index\<close> and its methods are declared outside the sources; an index is the
  record of its methods, each a parameter. A method receives the store and returns the
  store it leaves behind together with its result, also when it fails.
\<close>

record 'v Index =
  Update :: "KVStore \<Rightarrow> 'v Object option \<Rightarrow> 'v Object option \<Rightarrow> KVStore \<times> error option"
  GetAt :: "KVStore \<Rightarrow> bytes \<Rightarrow> KVStore \<times> (error + bytes list)"
  GetLike :: "KVStore \<Rightarrow> 'v Object \<Rightarrow> KVStore \<times> (error + bytes list)"

section \<open>Buckets\<close>

text \<open>
  A Go map is a reference: copies of a \<^verbatim>\<open>Bucket\<close> struct share one map. The heap holds
  the maps, a bucket holds the address of its map (\<open>None\<close> is the nil map, which reads
  as empty). A map is an association list with distinct names, listed in the order in
  which a \<^verbatim>\<open>range\<close> loop visits it; Go leaves that order open, and the theorems below
  hold for every list, so for every order.
\<close>

type_synonym 'v IndexMap = "(string \<times> 'v Index) list"

type_synonym 'v Heap = "'v IndexMap list"

record 'v Bucket =
  name :: string
  prefix :: bytes
  proto :: "'v Object"
  indexes :: "nat option"

definition deref :: "'v Heap \<Rightarrow> nat option \<Rightarrow> 'v IndexMap" where
  "deref h r = (case r of None \<Rightarrow> [] | Some a \<Rightarrow> if a < length h then h ! a else [])"

text \<open>
  A bucket is well formed in a heap when its map, if it has one, is allocated and lists
  every name once, as a Go map does.
\<close>

definition wf_bucket :: "'v Heap \<Rightarrow> 'v Bucket \<Rightarrow> bool" where
  "wf_bucket h b =
     (case indexes b of
        None \<Rightarrow> True
      | Some a \<Rightarrow> a < length h \<and> distinct (map fst (h ! a)))"

text \<open>
  \<^verbatim>\<open>isBucketName\<close> matches the whole name against \<^verbatim>\<open>^[a-z_]{3,8}$\<close>: three to eight
  bytes, each a lower-case ASCII letter (bytes 97 to 122) or an underscore.
\<close>

definition isBucketName :: "string \<Rightarrow> bool" where
  "isBucketName s \<longleftrightarrow>
     3 \<le> length s \<and> length s \<le> 8 \<and>
     list_all (\<lambda>c. c = CHR ''_'' \<or> (97 \<le> (of_char c :: nat) \<and> (of_char c :: nat) \<le> 122)) s"

definition NewBucket :: "string \<Rightarrow> 'v Object \<Rightarrow> 'v Bucket outcome" where
  "NewBucket nm p =
     (if \<not> isBucketName nm then Panicked (''Illegal bucket: '' @ nm)
      else Returned \<lparr>name = nm, prefix = nm @ '':'', proto = p, indexes = None\<rparr>)"

definition DBKey :: "'v Bucket \<Rightarrow> bytes \<Rightarrow> bytes" where
  "DBKey b key = prefix b @ key"

definition Bucket_Get :: "'v Bucket \<Rightarrow> KVStore \<Rightarrow> bytes \<Rightarrow> KVStore \<times> (error + 'v Object option)" where
  "Bucket_Get b db key =
     (let dbkey = DBKey b key;
          (db1, bz) = KVStore_Get db dbkey
      in case bz of
           None \<Rightarrow> (db1, Inr None)
         | Some bz \<Rightarrow>
             (let obj = Clone (proto b)
              in case Unmarshal obj bz of
                   Inl err \<Rightarrow> (db1, Inl err)
                 | Inr obj \<Rightarrow> (db1, Inr (Some (SetKey obj key)))))"

text \<open>The \<^verbatim>\<open>for _, idx := range b.indexes\<close> loop of \<^verbatim>\<open>updateIndexes\<close>.\<close>

fun update_loop ::
  "'v Index list \<Rightarrow> KVStore \<Rightarrow> 'v Object option \<Rightarrow> 'v Object option \<Rightarrow> KVStore \<times> error option" where
  "update_loop [] db prev model = (db, None)"
| "update_loop (idx # rest) db prev model =
     (case Update idx db prev model of
        (db1, Some err) \<Rightarrow> (db1, Some err)
      | (db1, None) \<Rightarrow> update_loop rest db1 prev model)"

definition updateIndexes ::
  "'v Heap \<Rightarrow> 'v Bucket \<Rightarrow> KVStore \<Rightarrow> bytes \<Rightarrow> 'v Object option \<Rightarrow> KVStore \<times> error option" where
  "updateIndexes h b db key model =
     (if length (deref h (indexes b)) > 0 then
        (case Bucket_Get b db key of
           (db1, Inl err) \<Rightarrow> (db1, Some err)
         | (db1, Inr prev) \<Rightarrow> update_loop (map snd (deref h (indexes b))) db1 prev model)
      else (db, None))"

definition Bucket_Save :: "'v Heap \<Rightarrow> 'v Bucket \<Rightarrow> KVStore \<Rightarrow> 'v Object \<Rightarrow> KVStore \<times> error option" where
  "Bucket_Save h b db model =
     (case Validate model of
        Some err \<Rightarrow> (db, Some err)
      | None \<Rightarrow>
          (case Marshal model of
             Inl err \<Rightarrow> (db, Some err)
           | Inr bz \<Rightarrow>
               (case updateIndexes h b db (Key model) (Some model) of
                  (db1, Some err) \<Rightarrow> (db1, Some err)
                | (db1, None) \<Rightarrow>
                    (let dbkey = prefix b @ Key model
                     in (KVStore_Set db1 dbkey bz, None)))))"

definition Bucket_Delete :: "'v Heap \<Rightarrow> 'v Bucket \<Rightarrow> KVStore \<Rightarrow> bytes \<Rightarrow> KVStore \<times> error option" where
  "Bucket_Delete h b db key =
     (case updateIndexes h b db key None of
        (db1, Some err) \<Rightarrow> (db1, Some err)
      | (db1, None) \<Rightarrow>
          (let dbkey = DBKey b key
           in (KVStore_Delete db1 dbkey, None)))"

text \<open>
  \<^verbatim>\<open>WithIndex\<close>: the receiver is a copy of the caller's struct; \<^verbatim>\<open>make\<close> allocates a new
  map at the next free address, the loop copies the entries, and the copy of the struct
  is returned pointing at the new map. \<^verbatim>\<open>NewIndex\<close> is declared outside the sources and
  is a parameter.
\<close>

definition WithIndex ::
  "(string \<Rightarrow> 'ixr \<Rightarrow> bool \<Rightarrow> 'v Index) \<Rightarrow> 'v Heap \<Rightarrow> 'v Bucket \<Rightarrow> string \<Rightarrow> 'ixr \<Rightarrow> bool
     \<Rightarrow> ('v Heap \<times> 'v Bucket) outcome" where
  "WithIndex NewIndex h b nm indexer unique =
     (if map_of (deref h (indexes b)) nm \<noteq> None
      then Panicked (''Index '' @ nm @ '' registered twice'')
      else
        (let iname = name b @ ''_'' @ nm;
             add = NewIndex iname indexer unique;
             a = length h;
             m0 = [];
             m1 = fold (\<lambda>(n, i) m. AList.update n i m) (deref h (indexes b)) m0;
             m2 = AList.update nm add m1
         in Returned (h @ [m2], b\<lparr>indexes := Some a\<rparr>)))"

text \<open>The \<^verbatim>\<open>for i, key := range refs\<close> loop of \<^verbatim>\<open>readRefs\<close>, writing \<^verbatim>\<open>objs[i]\<close>.\<close>

fun read_loop ::
  "'v Bucket \<Rightarrow> KVStore \<Rightarrow> nat \<Rightarrow> bytes list \<Rightarrow> 'v Object option list
     \<Rightarrow> KVStore \<times> (error + 'v Object option list)" where
  "read_loop b db i [] objs = (db, Inr objs)"
| "read_loop b db i (key # rest) objs =
     (case Bucket_Get b db key of
        (db1, Inl err) \<Rightarrow> (db1, Inl err)
      | (db1, Inr ob) \<Rightarrow> read_loop b db1 (Suc i) rest (objs[i := ob]))"

text \<open>A nil slice of objects is the empty list.\<close>

definition readRefs ::
  "'v Bucket \<Rightarrow> KVStore \<Rightarrow> bytes list \<Rightarrow> KVStore \<times> (error + 'v Object option list)" where
  "readRefs b db refs =
     (if length refs = 0 then (db, Inr [])
      else read_loop b db 0 refs (replicate (length refs) None))"

definition GetIndexed ::
  "'v Heap \<Rightarrow> 'v Bucket \<Rightarrow> KVStore \<Rightarrow> string \<Rightarrow> bytes \<Rightarrow> KVStore \<times> (error + 'v Object option list)" where
  "GetIndexed h b db nm key =
     (case map_of (deref h (indexes b)) nm of
        None \<Rightarrow> (db, Inl (NoSuchIndex nm))
      | Some idx \<Rightarrow>
          (case GetAt idx db key of
             (db1, Inl err) \<Rightarrow> (db1, Inl err)
           | (db1, Inr refs) \<Rightarrow> readRefs b db1 refs))"

definition GetIndexedLike ::
  "'v Heap \<Rightarrow> 'v Bucket \<Rightarrow> KVStore \<Rightarrow> string \<Rightarrow> 'v Object \<Rightarrow> KVStore \<times> (error + 'v Object option list)" where
  "GetIndexedLike h b db nm pattern =
     (case map_of (deref h (indexes b)) nm of
        None \<Rightarrow> (db, Inl (NoSuchIndex nm))
      | Some idx \<Rightarrow>
          (case GetLike idx db pattern of
             (db1, Inl err) \<Rightarrow> (db1, Inl err)
           | (db1, Inr refs) \<Rightarrow> readRefs b db1 refs))"

section \<open>The last-modified decorator\<close>

text \<open>
  The interface \<^verbatim>\<open>ModelBucket\<close> is declared outside the sources; the wrapped bucket is
  the record of its methods. \<^verbatim>\<open>One\<close> and \<^verbatim>\<open>ByIndex\<close> fill their destination argument,
  which the model returns beside the store and the result.
\<close>

record ('m, 'ms, 'qr) ModelBucket =
  One :: "KVStore \<Rightarrow> bytes \<Rightarrow> 'm \<Rightarrow> KVStore \<times> 'm \<times> error option"
  ByIndex :: "KVStore \<Rightarrow> string \<Rightarrow> bytes \<Rightarrow> 'ms \<Rightarrow> KVStore \<times> 'ms \<times> (error + bytes list)"
  Put :: "KVStore \<Rightarrow> bytes \<Rightarrow> 'm \<Rightarrow> KVStore \<times> (error + bytes)"
  Delete :: "KVStore \<Rightarrow> bytes \<Rightarrow> KVStore \<times> error option"
  Has :: "KVStore \<Rightarrow> bytes \<Rightarrow> KVStore \<times> error option"
  Register :: "string \<Rightarrow> 'qr \<Rightarrow> 'qr"

record ('m, 'ms, 'qr) unboundLastModifiedBucket =
  u_bucket :: "('m, 'ms, 'qr) ModelBucket"

record ('m, 'ms, 'qr) lastModifiedBucket =
  blockHeight :: int64
  bucket :: "('m, 'ms, 'qr) ModelBucket"

definition WithLastModified ::
  "('m, 'ms, 'qr) ModelBucket \<Rightarrow> ('m, 'ms, 'qr) unboundLastModifiedBucket" where
  "WithLastModified b = \<lparr>u_bucket = b\<rparr>"

text \<open>
  \<^verbatim>\<open>weave.GetHeight\<close> is declared outside the sources and is a parameter: it returns
  the height and whether the context carries one.
\<close>

definition unboundLastModifiedBucket_Bind ::
  "('ctx \<Rightarrow> int64 \<times> bool) \<Rightarrow> ('m, 'ms, 'qr) unboundLastModifiedBucket \<Rightarrow> 'ctx
     \<Rightarrow> ('m, 'ms, 'qr) lastModifiedBucket outcome" where
  "unboundLastModifiedBucket_Bind GetHeight u ctx =
     (case GetHeight ctx of
        (height, ok) \<Rightarrow>
          if \<not> ok then Panicked ''block height not present in the context''
          else Returned \<lparr>blockHeight = height, bucket = u_bucket u\<rparr>)"

definition lastModifiedBucket_One ::
  "('m, 'ms, 'qr) lastModifiedBucket \<Rightarrow> KVStore \<Rightarrow> bytes \<Rightarrow> 'm \<Rightarrow> KVStore \<times> 'm \<times> error option" where
  "lastModifiedBucket_One b db key dest = One (bucket b) db key dest"

definition lastModifiedBucket_ByIndex ::
  "('m, 'ms, 'qr) lastModifiedBucket \<Rightarrow> KVStore \<Rightarrow> string \<Rightarrow> bytes \<Rightarrow> 'ms
     \<Rightarrow> KVStore \<times> 'ms \<times> (error + bytes list)" where
  "lastModifiedBucket_ByIndex b db indexName key dest = ByIndex (bucket b) db indexName key dest"

text \<open>
  \<^verbatim>\<open>Put\<close>: \<open>GetMetadata\<close> stands for the type assertion \<^verbatim>\<open>m.(metadator)\<close> followed by
  the call \<^verbatim>\<open>m.GetMetadata()\<close>, \<open>None\<close> when the model's type has no such method. The
  first component of the result is what \<^verbatim>\<open>fmt.Println\<close> writes: the text and the
  metadata printed after it.
\<close>

definition lastModifiedBucket_Put ::
  "('m \<Rightarrow> 'meta option) \<Rightarrow> ('m, 'ms, 'qr) lastModifiedBucket \<Rightarrow> KVStore \<Rightarrow> bytes \<Rightarrow> 'm
     \<Rightarrow> (string \<times> 'meta) list \<times> KVStore \<times> (error + bytes)" where
  "lastModifiedBucket_Put GetMetadata b db key m =
     (let printed = (case GetMetadata m of
                       Some meta \<Rightarrow> [(''meta = b.blockHeight'', meta)]
                     | None \<Rightarrow> [])
      in (printed, Put (bucket b) db key m))"

definition lastModifiedBucket_Delete ::
  "('m, 'ms, 'qr) lastModifiedBucket \<Rightarrow> KVStore \<Rightarrow> bytes \<Rightarrow> KVStore \<times> error option" where
  "lastModifiedBucket_Delete b db key = Delete (bucket b) db key"

definition lastModifiedBucket_Has ::
  "('m, 'ms, 'qr) lastModifiedBucket \<Rightarrow> KVStore \<Rightarrow> bytes \<Rightarrow> KVStore \<times> error option" where
  "lastModifiedBucket_Has b db key = Has (bucket b) db key"

definition lastModifiedBucket_Register ::
  "('m, 'ms, 'qr) lastModifiedBucket \<Rightarrow> string \<Rightarrow> 'qr \<Rightarrow> 'qr" where
  "lastModifiedBucket_Register b nm r = Register (bucket b) nm r"

section \<open>Sample data\<close>

text \<open>
  A bucket \<open>acct\<close> of account names. A name is stored as its own bytes; the name \<open>#\<close>
  cannot be serialised and the bytes \<open>#\<close> cannot be read back; the empty name is
  invalid. The index \<open>name\<close> keeps one entry per account name; the index \<open>mail\<close> rejects
  every update.
\<close>

definition acct_obj :: "bytes \<Rightarrow> string \<Rightarrow> string Object" where
  "acct_obj k v =
     \<lparr>Key = k, Value = v,
      validate_m = (\<lambda>k v. if v = [] then Some (Failure ''empty name'') else None),
      marshal_m = (\<lambda>v. if v = ''#'' then Inl (Failure ''cannot marshal'') else Inr v),
      unmarshal_m = (\<lambda>v bz. if bz = ''#'' then Inl (Failure ''cannot unmarshal'') else Inr bz)\<rparr>"

definition plain_index :: "string \<Rightarrow> string Index" where
  "plain_index iname =
     \<lparr>Update = (\<lambda>db prev new.
        case new of
          None \<Rightarrow> (db, None)
        | Some obj \<Rightarrow> (KVStore_Set db (iname @ '':'' @ Value obj) (Key obj), None)),
      GetAt = (\<lambda>db k.
        case KVStore_Get db (iname @ '':'' @ k) of
          (db1, None) \<Rightarrow> (db1, Inr [])
        | (db1, Some ref) \<Rightarrow> (db1, Inr [ref])),
      GetLike = (\<lambda>db obj.
        case KVStore_Get db (iname @ '':'' @ Value obj) of
          (db1, None) \<Rightarrow> (db1, Inr [])
        | (db1, Some ref) \<Rightarrow> (db1, Inr [ref]))\<rparr>"

definition NewIndex_sample :: "string \<Rightarrow> unit \<Rightarrow> bool \<Rightarrow> string Index" where
  "NewIndex_sample iname indexer unique = plain_index iname"

definition name_index :: "string Index" where
  "name_index = plain_index ''acct_name''"

definition mail_index :: "string Index" where
  "mail_index =
     \<lparr>Update = (\<lambda>db prev new. (db, Some (Failure ''duplicate key''))),
      GetAt = (\<lambda>db k. (db, Inr [])),
      GetLike = (\<lambda>db obj. (db, Inr []))\<rparr>"

definition acct_heap :: "string Heap" where
  "acct_heap = [[(''name'', name_index), (''mail'', mail_index)], [(''name'', name_index)]]"

definition acct_plain :: "string Bucket" where
  "acct_plain = \<lparr>name = ''acct'', prefix = ''acct:'', proto = acct_obj [] [], indexes = None\<rparr>"

definition acct_two :: "string Bucket" where
  "acct_two = acct_plain\<lparr>indexes := Some 0\<rparr>"

definition acct_one :: "string Bucket" where
  "acct_one = acct_plain\<lparr>indexes := Some 1\<rparr>"

definition empty_db :: KVStore where
  "empty_db = \<lparr>kv = Map.empty, calls = []\<rparr>"

definition alice_db :: KVStore where
  "alice_db = \<lparr>kv = [''acct:k1'' \<mapsto> ''alice''], calls = []\<rparr>"

definition bare_db :: KVStore where
  "bare_db = \<lparr>kv = [''k1'' \<mapsto> ''alice''], calls = []\<rparr>"

definition dangling_db :: KVStore where
  "dangling_db = \<lparr>kv = [''acct_name:bob'' \<mapsto> ''k2''], calls = []\<rparr>"

definition sample_bucket :: "(string, string list, string list) ModelBucket" where
  "sample_bucket =
     \<lparr>One = (\<lambda>db key dest.
        case KVStore_Get db key of
          (db1, None) \<Rightarrow> (db1, dest, Some (Failure ''not found''))
        | (db1, Some v) \<Rightarrow> (db1, v, None)),
      ByIndex = (\<lambda>db indexName key dest. (db, dest, Inr [])),
      Put = (\<lambda>db key m. (KVStore_Set db key m, Inr key)),
      Delete = (\<lambda>db key. (KVStore_Delete db key, None)),
      Has = (\<lambda>db key.
        case KVStore_Get db key of
          (db1, None) \<Rightarrow> (db1, Some (Failure ''not found''))
        | (db1, Some v) \<Rightarrow> (db1, None)),
      Register = (\<lambda>nm r. nm # r)\<rparr>"

definition GetHeight_sample :: "int64 option \<Rightarrow> int64 \<times> bool" where
  "GetHeight_sample ctx = (case ctx of None \<Rightarrow> (0, False) | Some height \<Rightarrow> (height, True))"

section \<open>The sample bucket comes from the constructor\<close>

lemma NewBucket_acct: "NewBucket ''acct'' (acct_obj [] []) = Returned acct_plain"
  by (simp add: NewBucket_def isBucketName_def acct_plain_def)

lemma NewBucket_illegal: "NewBucket ''Acct'' p = Panicked ''Illegal bucket: Acct''"
  by (simp add: NewBucket_def isBucketName_def)

section \<open>Reading one record\<close>

lemma Bucket_Get_kv: "kv (fst (Bucket_Get b db key)) = kv db"
  by (simp add: Bucket_Get_def KVStore_Get_def Let_def split: option.split sum.split)

lemma Bucket_Get_calls: "calls (fst (Bucket_Get b db key)) = calls db @ [GetCall (DBKey b key)]"
  by (simp add: Bucket_Get_def KVStore_Get_def Let_def split: option.split sum.split)

text \<open>
  C4. When no record is stored at \<open>prefix + key\<close>, the bucket's prefix followed by the
  key, \<^verbatim>\<open>Bucket.Get\<close> returns the absent object (nil) and no error (nil), whatever else
  the store holds; the store has only been asked for \<open>prefix + key\<close>.
\<close>

theorem Get_absent_is_nil_nil:
  assumes "kv db (prefix b @ key) = None"
  shows "Bucket_Get b db key = (db\<lparr>calls := calls db @ [GetCall (prefix b @ key)]\<rparr>, Inr None)"
  using assms by (simp add: Bucket_Get_def KVStore_Get_def DBKey_def Let_def)

theorem Get_absent_is_nil_nil_witness:
  "prefix acct_plain @ ''k1'' = ''acct:k1'' \<and>
   kv bare_db ''acct:k1'' = None \<and>
   kv bare_db ''k1'' = Some ''alice'' \<and>
   Bucket_Get acct_plain bare_db ''k1'' =
     (\<lparr>kv = [''k1'' \<mapsto> ''alice''], calls = [GetCall ''acct:k1'']\<rparr>, Inr None)"
proof -
  have key: "prefix acct_plain @ ''k1'' = ''acct:k1''"
    by (simp add: acct_plain_def)
  have absent: "kv bare_db (prefix acct_plain @ ''k1'') = None"
    unfolding key by (simp add: bare_db_def)
  have bare: "kv bare_db ''k1'' = Some ''alice''"
    by (simp add: bare_db_def)
  have asked: "bare_db\<lparr>calls := calls bare_db @ [GetCall ''acct:k1'']\<rparr> =
      \<lparr>kv = [''k1'' \<mapsto> ''alice''], calls = [GetCall ''acct:k1'']\<rparr>"
    by (simp add: bare_db_def)
  have "Bucket_Get acct_plain bare_db ''k1'' =
      (bare_db\<lparr>calls := calls bare_db @ [GetCall ''acct:k1'']\<rparr>, Inr None)"
    using Get_absent_is_nil_nil [OF absent] unfolding key .
  then have got: "Bucket_Get acct_plain bare_db ''k1'' =
      (\<lparr>kv = [''k1'' \<mapsto> ''alice''], calls = [GetCall ''acct:k1'']\<rparr>, Inr None)"
    by (simp only: asked)
  from absent have absent': "kv bare_db ''acct:k1'' = None"
    unfolding key .
  from key absent' bare got show ?thesis by (intro conjI)
qed



section \<open>Save and Delete\<close>

text \<open>
  C2. When \<^verbatim>\<open>model.Validate()\<close> reports an error, \<^verbatim>\<open>Bucket.Save\<close> returns that error and
  the store is the one it was given: its content is unchanged (no primary record, no
  index entry) and no call was made on it.
\<close>

theorem Save_validation_failure:
  assumes "Validate model = Some err"
  shows "Bucket_Save h b db model = (db, Some err)"
  using assms by (simp add: Bucket_Save_def)

theorem Save_validation_failure_witness:
  "Validate (acct_obj ''k1'' []) = Some (Failure ''empty name'') \<and>
   Bucket_Save acct_heap acct_two alice_db (acct_obj ''k1'' []) =
     (alice_db, Some (Failure ''empty name''))"
proof -
  have invalid: "Validate (acct_obj ''k1'' []) = Some (Failure ''empty name'')"
    by (simp add: Validate_def acct_obj_def)
  from invalid Save_validation_failure [OF invalid] show ?thesis by simp
qed

text \<open>
  C9. When the object is valid and \<^verbatim>\<open>Marshal\<close> of its value fails, \<^verbatim>\<open>Bucket.Save\<close>
  returns that error and the store is the one it was given: \<^verbatim>\<open>Marshal\<close> runs before the
  indexes are updated and before the primary record is written, so the store has been
  neither read nor written.
\<close>

theorem Save_marshal_failure:
  assumes "Validate model = None" and "Marshal model = Inl err"
  shows "Bucket_Save h b db model = (db, Some err)"
  using assms by (simp add: Bucket_Save_def)

theorem Save_marshal_failure_witness:
  "Validate (acct_obj ''k1'' ''#'') = None \<and>
   Marshal (acct_obj ''k1'' ''#'') = Inl (Failure ''cannot marshal'') \<and>
   Bucket_Save acct_heap acct_two alice_db (acct_obj ''k1'' ''#'') =
     (alice_db, Some (Failure ''cannot marshal''))"
proof -
  have valid: "Validate (acct_obj ''k1'' ''#'') = None"
    by (simp add: Validate_def acct_obj_def)
  have fails: "Marshal (acct_obj ''k1'' ''#'') = Inl (Failure ''cannot marshal'')"
    by (simp add: Marshal_def acct_obj_def)
  from valid fails Save_marshal_failure [OF valid fails] show ?thesis by simp
qed

text \<open>
  C10. For a bucket without indexes, \<^verbatim>\<open>Bucket.Delete\<close> returns nil for every key, stored
  or not, and the only call it makes on the store is the delete of \<open>prefix + key\<close>, the
  bucket's prefix followed by the key: the previous value is not read, and the content
  of the store changes at \<open>prefix + key\<close> only.
\<close>

theorem Delete_without_indexes:
  assumes "deref h (indexes b) = []"
  shows "Bucket_Delete h b db key =
           (db\<lparr>kv := (kv db)(prefix b @ key := None),
               calls := calls db @ [DeleteCall (prefix b @ key)]\<rparr>, None)"
  using assms
  by (simp add: Bucket_Delete_def updateIndexes_def KVStore_Delete_def DBKey_def Let_def)

theorem Delete_without_indexes_witness:
  "deref acct_heap (indexes acct_plain) = [] \<and>
   kv alice_db ''acct:k9'' = None \<and>
   Bucket_Delete acct_heap acct_plain alice_db ''k9'' =
     (\<lparr>kv = [''acct:k1'' \<mapsto> ''alice''], calls = [DeleteCall ''acct:k9'']\<rparr>, None) \<and>
   kv alice_db ''acct:k1'' = Some ''alice'' \<and>
   Bucket_Delete acct_heap acct_plain alice_db ''k1'' =
     (\<lparr>kv = Map.empty, calls = [DeleteCall ''acct:k1'']\<rparr>, None)"
proof -
  have none: "deref acct_heap (indexes acct_plain) = []"
    by (simp add: deref_def acct_plain_def)
  have absent: "kv alice_db ''acct:k9'' = None"
    by (simp add: alice_db_def)
  have stored: "kv alice_db ''acct:k1'' = Some ''alice''"
    by (simp add: alice_db_def)
  have key9: "prefix acct_plain @ ''k9'' = ''acct:k9''" and key1: "prefix acct_plain @ ''k1'' = ''acct:k1''"
    by (simp_all add: acct_plain_def)
  have after9: "alice_db\<lparr>kv := (kv alice_db)(''acct:k9'' := None),
                         calls := calls alice_db @ [DeleteCall ''acct:k9'']\<rparr> =
      \<lparr>kv = [''acct:k1'' \<mapsto> ''alice''], calls = [DeleteCall ''acct:k9'']\<rparr>"
    by (simp add: alice_db_def fun_eq_iff)
  have after1: "alice_db\<lparr>kv := (kv alice_db)(''acct:k1'' := None),
                         calls := calls alice_db @ [DeleteCall ''acct:k1'']\<rparr> =
      \<lparr>kv = Map.empty, calls = [DeleteCall ''acct:k1'']\<rparr>"
    by (simp add: alice_db_def fun_eq_iff)
  have gone9: "Bucket_Delete acct_heap acct_plain alice_db ''k9'' =
      (\<lparr>kv = [''acct:k1'' \<mapsto> ''alice''], calls = [DeleteCall ''acct:k9'']\<rparr>, None)"
    using Delete_without_indexes [OF none, of alice_db "''k9''"] by (simp only: key9 after9)
  have gone1: "Bucket_Delete acct_heap acct_plain alice_db ''k1'' =
      (\<lparr>kv = Map.empty, calls = [DeleteCall ''acct:k1'']\<rparr>, None)"
    using Delete_without_indexes [OF none, of alice_db "''k1''"] by (simp only: key1 after1)
  from none absent gone9 stored gone1 show ?thesis by (intro conjI)
qed

text \<open>The index loop: where it stops, and what it leaves alone.\<close>

lemma update_loop_stops:
  assumes "update_loop pre db0 prev model = (db1, None)"
    and "Update idx db1 prev model = (db2, Some err)"
  shows "update_loop (pre @ idx # post) db0 prev model = (db2, Some err)"
  using assms
proof (induction pre arbitrary: db0)
  case Nil
  then show ?case by simp
next
  case (Cons i pre)
  obtain d r where u: "Update i db0 prev model = (d, r)" by (cases "Update i db0 prev model")
  with Cons.prems(1) have r: "r = None" and rest: "update_loop pre d prev model = (db1, None)"
    by (auto split: option.splits)
  from Cons.IH [OF rest Cons.prems(2)] u r show ?case by simp
qed

lemma update_loop_frame:
  assumes "\<forall>i\<in>set idxs. \<forall>d p m. kv (fst (Update i d p m)) k = kv d k"
  shows "kv (fst (update_loop idxs db prev model)) k = kv db k"
  using assms
proof (induction idxs arbitrary: db)
  case Nil
  then show ?case by simp
next
  case (Cons i idxs)
  obtain d r where u: "Update i db prev model = (d, r)" by (cases "Update i db prev model")
  from Cons.prems have here: "kv (fst (Update i db prev model)) k = kv db k" by simp
  from Cons.prems have "\<forall>i\<in>set idxs. \<forall>d p m. kv (fst (Update i d p m)) k = kv d k" by simp
  from Cons.IH [OF this] have rest: "kv (fst (update_loop idxs d prev model)) k = kv d k" .
  show ?case
  proof (cases r)
    case None
    with u here rest show ?thesis by simp
  next
    case (Some e)
    with u here show ?thesis by simp
  qed
qed

text \<open>
  C1. \<^verbatim>\<open>Bucket.Save\<close> of a valid, serialisable object on a bucket with indexes, visited in
  the order \<open>pre\<close>, \<open>idx\<close>, \<open>post\<close>: when the updates of \<open>pre\<close> succeed, leaving the
  store \<open>db1\<close>, and \<^verbatim>\<open>Update\<close> of \<open>idx\<close> fails with \<open>err\<close>, leaving \<open>db2\<close>, then
  \<^verbatim>\<open>Save\<close> returns \<open>err\<close> and the store \<open>db2\<close> as that failing update left it on top of
  the earlier updates: nothing is rolled back and no call follows, so the primary record
  is not written. Before the index updates \<^verbatim>\<open>Save\<close> had only read \<open>prefix + key\<close>.
  If the indexes visited do not write to \<open>prefix + key\<close>, the content stored there is
  what it was before the call.
\<close>

theorem Save_index_update_failure:
  assumes valid: "Validate model = None"
    and bytes: "Marshal model = Inr bz"
    and order: "deref h (indexes b) = pre @ (n, idx) # post"
    and previous: "Bucket_Get b db (Key model) = (db0, Inr prev)"
    and earlier: "update_loop (map snd pre) db0 prev (Some model) = (db1, None)"
    and failing: "Update idx db1 prev (Some model) = (db2, Some err)"
  shows "Bucket_Save h b db model = (db2, Some err) \<and>
         db0 = db\<lparr>calls := calls db @ [GetCall (prefix b @ Key model)]\<rparr> \<and>
         ((\<forall>i\<in>set (map snd pre @ [idx]). \<forall>d p m.
              kv (fst (Update i d p m)) (prefix b @ Key model) = kv d (prefix b @ Key model))
          \<longrightarrow> kv db2 (prefix b @ Key model) = kv db (prefix b @ Key model))"
proof (intro conjI impI)
  have "update_loop (map snd (deref h (indexes b))) db0 prev (Some model) = (db2, Some err)"
    using update_loop_stops [OF earlier failing, of "map snd post"] order by simp
  then have "updateIndexes h b db (Key model) (Some model) = (db2, Some err)"
    using previous order by (simp add: updateIndexes_def)
  then show "Bucket_Save h b db model = (db2, Some err)"
    using valid bytes by (simp add: Bucket_Save_def)
next
  have "kv db0 = kv db" "calls db0 = calls db @ [GetCall (DBKey b (Key model))]"
    using Bucket_Get_kv [of b db "Key model"] Bucket_Get_calls [of b db "Key model"] previous
    by simp_all
  then show "db0 = db\<lparr>calls := calls db @ [GetCall (prefix b @ Key model)]\<rparr>"
    by (simp add: DBKey_def)
next
  let ?pk = "prefix b @ Key model"
  assume frame: "\<forall>i\<in>set (map snd pre @ [idx]). \<forall>d p m. kv (fst (Update i d p m)) ?pk = kv d ?pk"
  have "kv db0 ?pk = kv db ?pk"
    using Bucket_Get_kv [of b db "Key model"] previous by simp
  moreover have "kv db1 ?pk = kv db0 ?pk"
    using update_loop_frame [of "map snd pre" ?pk db0 prev "Some model"] frame earlier by simp
  moreover have "kv db2 ?pk = kv db1 ?pk"
    using frame failing by (metis fst_conv in_set_conv_decomp)
  ultimately show "kv db2 ?pk = kv db ?pk" by simp
qed

theorem Save_index_update_failure_witness:
  "Bucket_Save acct_heap acct_two empty_db (acct_obj ''k1'' ''alice'') =
     (\<lparr>kv = [''acct_name:alice'' \<mapsto> ''k1''],
       calls = [GetCall ''acct:k1'', SetCall ''acct_name:alice'' ''k1'']\<rparr>,
      Some (Failure ''duplicate key'')) \<and>
   kv \<lparr>kv = [''acct_name:alice'' \<mapsto> ''k1''],
       calls = [GetCall ''acct:k1'', SetCall ''acct_name:alice'' ''k1'']\<rparr> ''acct:k1'' =
     kv empty_db ''acct:k1''"
proof -
  let ?m = "acct_obj ''k1'' ''alice''"
  let ?db0 = "\<lparr>kv = Map.empty, calls = [GetCall ''acct:k1'']\<rparr>"
  let ?db1 = "\<lparr>kv = [''acct_name:alice'' \<mapsto> ''k1''],
               calls = [GetCall ''acct:k1'', SetCall ''acct_name:alice'' ''k1'']\<rparr>"
  have valid: "Validate ?m = None"
    by (simp add: Validate_def acct_obj_def)
  have bytes: "Marshal ?m = Inr ''alice''"
    by (simp add: Marshal_def acct_obj_def)
  have order: "deref acct_heap (indexes acct_two) = [(''name'', name_index)] @ (''mail'', mail_index) # []"
    by (simp add: deref_def acct_heap_def acct_two_def acct_plain_def)
  have previous: "Bucket_Get acct_two empty_db (Key ?m) = (?db0, Inr None)"
    by (simp add: Bucket_Get_def KVStore_Get_def DBKey_def acct_two_def acct_plain_def
        acct_obj_def empty_db_def)
  have earlier: "update_loop (map snd [(''name'', name_index)]) ?db0 None (Some ?m) = (?db1, None)"
    by (simp add: name_index_def plain_index_def KVStore_Set_def acct_obj_def)
  have failing: "Update mail_index ?db1 None (Some ?m) = (?db1, Some (Failure ''duplicate key''))"
    by (simp add: mail_index_def)
  have key: "prefix acct_two @ Key ?m = ''acct:k1''"
    by (simp add: acct_two_def acct_plain_def acct_obj_def)
  have frame: "\<forall>i\<in>set (map snd [(''name'', name_index)] @ [mail_index]). \<forall>d p m.
      kv (fst (Update i d p m)) (prefix acct_two @ Key ?m) = kv d (prefix acct_two @ Key ?m)"
    unfolding key
    by (simp add: name_index_def plain_index_def mail_index_def KVStore_Set_def split: option.split)
  from Save_index_update_failure [OF valid bytes order previous earlier failing] frame
  have "Bucket_Save acct_heap acct_two empty_db ?m = (?db1, Some (Failure ''duplicate key''))"
    and "kv ?db1 (prefix acct_two @ Key ?m) = kv empty_db (prefix acct_two @ Key ?m)"
    by blast+
  then show ?thesis
    unfolding key by (intro conjI)
qed

section \<open>Registering an index\<close>

lemma copy_loop_map_of:
  assumes "distinct (map fst xs)"
  shows "map_of (fold (\<lambda>(n, i) m. AList.update n i m) xs m0) = map_of m0 ++ map_of xs"
  using assms
proof (induction xs arbitrary: m0)
  case Nil
  then show ?case by simp
next
  case (Cons x xs)
  obtain k v where x: "x = (k, v)" by (cases x)
  from Cons.prems x have fresh: "k \<notin> dom (map_of xs)" and rest: "distinct (map fst xs)"
    by (auto simp add: dom_map_of_conv_image_fst)
  have "map_of (fold (\<lambda>(n, i) m. AList.update n i m) (x # xs) m0) =
          map_of (AList.update k v m0) ++ map_of xs"
    using Cons.IH [OF rest, of "AList.update k v m0"] x by simp
  also have "\<dots> = (map_of m0 ++ map_of xs)(k \<mapsto> v)"
    using fresh by (simp add: update_conv' map_add_upd_left)
  also have "\<dots> = map_of m0 ++ map_of (x # xs)"
    using x by simp
  finally show ?case .
qed

lemma copy_loop_distinct:
  assumes "distinct (map fst m0)"
  shows "distinct (map fst (fold (\<lambda>(n, i) m. AList.update n i m) xs m0))"
  using assms
proof (induction xs arbitrary: m0)
  case Nil
  then show ?case by simp
next
  case (Cons x xs)
  obtain k v where x: "x = (k, v)" by (cases x)
  from Cons.prems have "distinct (map fst (AList.update k v m0))"
    by (rule distinct_update)
  from Cons.IH [OF this] x show ?case by simp
qed

lemma deref_distinct:
  assumes "wf_bucket h b"
  shows "distinct (map fst (deref h (indexes b)))"
  using assms by (simp add: wf_bucket_def deref_def split: option.splits)

lemma deref_grown:
  assumes "wf_bucket h b"
  shows "deref (h @ [m]) (indexes b) = deref h (indexes b)"
  using assms by (simp add: wf_bucket_def deref_def nth_append split: option.splits)

text \<open>
  C6. For a well-formed bucket \<open>b\<close>: when \<open>n\<close> is registered in \<open>b\<close>, \<^verbatim>\<open>WithIndex\<close>
  panics. Otherwise it returns a bucket with the name, prefix and prototype of \<open>b\<close>
  whose index map is the map of \<open>b\<close> plus \<open>n\<close>, bound to
  \<^verbatim>\<open>NewIndex(b.name + "_" + n, indexer, unique)\<close>; that map is a new one, every map
  allocated before the call is as it was, and so \<open>b\<close> still has the indexes it had.
\<close>

theorem WithIndex_modified_copy:
  assumes "wf_bucket h b"
  shows "(map_of (deref h (indexes b)) n \<noteq> None \<longrightarrow>
            (\<exists>msg. WithIndex NewIndex h b n indexer unique = Panicked msg)) \<and>
         (map_of (deref h (indexes b)) n = None \<longrightarrow>
            (\<exists>h' b'. WithIndex NewIndex h b n indexer unique = Returned (h', b') \<and>
               map_of (deref h' (indexes b')) =
                 (map_of (deref h (indexes b)))(n \<mapsto> NewIndex (name b @ ''_'' @ n) indexer unique) \<and>
               take (length h) h' = h \<and>
               deref h' (indexes b) = deref h (indexes b) \<and>
               indexes b' = Some (length h) \<and>
               name b' = name b \<and> prefix b' = prefix b \<and> proto b' = proto b \<and>
               wf_bucket h' b'))"
proof (intro conjI impI)
  assume "map_of (deref h (indexes b)) n \<noteq> None"
  then show "\<exists>msg. WithIndex NewIndex h b n indexer unique = Panicked msg"
    by (simp add: WithIndex_def)
next
  assume free: "map_of (deref h (indexes b)) n = None"
  let ?add = "NewIndex (name b @ ''_'' @ n) indexer unique"
  let ?m1 = "fold (\<lambda>(n, i) m. AList.update n i m) (deref h (indexes b)) []"
  let ?m2 = "AList.update n ?add ?m1"
  let ?h = "h @ [?m2]"
  let ?b = "b\<lparr>indexes := Some (length h)\<rparr>"
  have returned: "WithIndex NewIndex h b n indexer unique = Returned (?h, ?b)"
    using free by (simp add: WithIndex_def Let_def)
  have new: "deref ?h (indexes ?b) = ?m2"
    by (simp add: deref_def)
  have copied: "map_of ?m1 = map_of (deref h (indexes b))"
    using copy_loop_map_of [OF deref_distinct [OF assms], of "[]"] by simp
  have content: "map_of (deref ?h (indexes ?b)) = (map_of (deref h (indexes b)))(n \<mapsto> ?add)"
    by (simp only: new update_conv' copied)
  have "distinct (map fst ?m2)"
    by (rule distinct_update) (rule copy_loop_distinct, simp)
  then have wf: "wf_bucket ?h ?b"
    by (simp add: wf_bucket_def)
  have old: "deref ?h (indexes b) = deref h (indexes b)"
    by (rule deref_grown [OF assms])
  show "\<exists>h' b'. WithIndex NewIndex h b n indexer unique = Returned (h', b') \<and>
          map_of (deref h' (indexes b')) = (map_of (deref h (indexes b)))(n \<mapsto> ?add) \<and>
          take (length h) h' = h \<and>
          deref h' (indexes b) = deref h (indexes b) \<and>
          indexes b' = Some (length h) \<and>
          name b' = name b \<and> prefix b' = prefix b \<and> proto b' = proto b \<and>
          wf_bucket h' b'"
    using returned content old wf by (intro exI [of _ ?h] exI [of _ ?b]) simp
qed

theorem WithIndex_modified_copy_witness:
  "wf_bucket acct_heap acct_one \<and>
   (\<exists>msg. WithIndex NewIndex_sample acct_heap acct_one ''name'' () False = Panicked msg) \<and>
   (\<exists>h' b'. WithIndex NewIndex_sample acct_heap acct_one ''mail'' () True = Returned (h', b') \<and>
      map_of (deref h' (indexes b')) =
        (map_of (deref acct_heap (indexes acct_one)))
          (''mail'' \<mapsto> NewIndex_sample (name acct_one @ ''_'' @ ''mail'') () True) \<and>
      take (length acct_heap) h' = acct_heap \<and>
      deref h' (indexes acct_one) = deref acct_heap (indexes acct_one) \<and>
      indexes b' = Some (length acct_heap) \<and>
      name b' = name acct_one \<and> prefix b' = prefix acct_one \<and> proto b' = proto acct_one \<and>
      wf_bucket h' b')"
proof -
  have wf: "wf_bucket acct_heap acct_one"
    by (simp add: wf_bucket_def acct_heap_def acct_one_def acct_plain_def)
  have taken: "map_of (deref acct_heap (indexes acct_one)) ''name'' \<noteq> None"
    by (simp add: deref_def acct_heap_def acct_one_def acct_plain_def)
  have free: "map_of (deref acct_heap (indexes acct_one)) ''mail'' = None"
    by (simp add: deref_def acct_heap_def acct_one_def acct_plain_def)
  note both = WithIndex_modified_copy [OF wf, of _ NewIndex_sample "()"]
  from conjunct1 [OF both, rule_format, OF taken] conjunct2 [OF both, rule_format, OF free] wf
  show ?thesis by (intro conjI)
qed

section \<open>Reading through an index\<close>

lemma Bucket_Get_absent:
  assumes "kv db (DBKey b key) = None"
  shows "snd (Bucket_Get b db key) = Inr None"
  using assms by (simp add: Bucket_Get_def KVStore_Get_def Let_def)

lemma Bucket_Get_readable:
  assumes "\<forall>bz. kv db (DBKey b key) = Some bz \<longrightarrow> (\<exists>ob. Unmarshal (Clone (proto b)) bz = Inr ob)"
  shows "\<exists>ob. snd (Bucket_Get b db key) = Inr ob"
proof (cases "kv db (DBKey b key)")
  case None
  then show ?thesis by (simp add: Bucket_Get_absent)
next
  case (Some bz)
  with assms obtain ob where "Unmarshal (Clone (proto b)) bz = Inr ob" by blast
  with Some show ?thesis by (simp add: Bucket_Get_def KVStore_Get_def Let_def)
qed

lemma read_loop_dangling:
  assumes "\<forall>k\<in>set refs. \<forall>bz. kv db (DBKey b k) = Some bz \<longrightarrow>
             (\<exists>ob. Unmarshal (Clone (proto b)) bz = Inr ob)"
    and "i + length refs \<le> length objs"
  shows "\<exists>db' objs'. read_loop b db i refs objs = (db', Inr objs') \<and>
           kv db' = kv db \<and> length objs' = length objs \<and>
           (\<forall>j<i. objs' ! j = objs ! j) \<and>
           (\<forall>j<length refs. kv db (DBKey b (refs ! j)) = None \<longrightarrow> objs' ! (i + j) = None)"
  using assms
proof (induction refs arbitrary: db i objs)
  case Nil
  then show ?case by simp
next
  case (Cons key rest)
  from Cons.prems(1) have "\<forall>bz. kv db (DBKey b key) = Some bz \<longrightarrow>
      (\<exists>ob. Unmarshal (Clone (proto b)) bz = Inr ob)" by simp
  from Bucket_Get_readable [OF this] obtain ob where ob: "snd (Bucket_Get b db key) = Inr ob" ..
  define db1 where "db1 = fst (Bucket_Get b db key)"
  have get: "Bucket_Get b db key = (db1, Inr ob)"
    using ob by (simp add: db1_def prod_eq_iff)
  have same: "kv db1 = kv db"
    by (simp add: db1_def Bucket_Get_kv)
  have absent: "kv db (DBKey b key) = None \<Longrightarrow> ob = None"
    using Bucket_Get_absent [of db b key] ob by simp
  have rest_ok: "\<forall>k\<in>set rest. \<forall>bz. kv db1 (DBKey b k) = Some bz \<longrightarrow>
      (\<exists>ob. Unmarshal (Clone (proto b)) bz = Inr ob)"
    using Cons.prems(1) same by simp
  have room: "Suc i + length rest \<le> length (objs[i := ob])"
    using Cons.prems(2) by simp
  from Cons.IH [OF rest_ok room] obtain db' objs' where
    loop: "read_loop b db1 (Suc i) rest (objs[i := ob]) = (db', Inr objs')"
    and kv': "kv db' = kv db1"
    and len: "length objs' = length (objs[i := ob])"
    and below: "\<forall>j<Suc i. objs' ! j = objs[i := ob] ! j"
    and above: "\<forall>j<length rest. kv db1 (DBKey b (rest ! j)) = None \<longrightarrow> objs' ! (Suc i + j) = None"
    by blast
  have here: "objs' ! i = ob"
    using below Cons.prems(2) by simp
  have 1: "read_loop b db i (key # rest) objs = (db', Inr objs')"
    using get loop by simp
  have 2: "\<forall>j<i. objs' ! j = objs ! j"
    using below by simp
  have 3: "\<forall>j<length (key # rest). kv db (DBKey b ((key # rest) ! j)) = None \<longrightarrow> objs' ! (i + j) = None"
  proof (intro allI impI)
    fix j
    assume j: "j < length (key # rest)" and none: "kv db (DBKey b ((key # rest) ! j)) = None"
    show "objs' ! (i + j) = None"
    proof (cases j)
      case 0
      with none here absent show ?thesis by simp
    next
      case (Suc j')
      with j none above same show ?thesis by simp
    qed
  qed
  from 1 2 3 kv' same len show ?case by (intro exI [of _ db'] exI [of _ objs']) simp
qed

text \<open>
  C3, as the code has it. When \<^verbatim>\<open>GetIndexed\<close> resolves the index and a primary key it
  lists is absent from the store, no error is raised for it: if every listed record that
  is present unmarshals, \<^verbatim>\<open>GetIndexed\<close> returns a nil error and one entry per reference,
  and the entry of the dangling reference is the absent object (nil).
\<close>

theorem GetIndexed_dangling_reference_is_nil:
  assumes "map_of (deref h (indexes b)) nm = Some idx"
    and "GetAt idx db key = (db1, Inr refs)"
    and "j < length refs"
    and "kv db1 (DBKey b (refs ! j)) = None"
    and "\<forall>k\<in>set refs. \<forall>bz. kv db1 (DBKey b k) = Some bz \<longrightarrow>
           (\<exists>ob. Unmarshal (Clone (proto b)) bz = Inr ob)"
  shows "\<exists>db2 objs. GetIndexed h b db nm key = (db2, Inr objs) \<and>
           length objs = length refs \<and> objs ! j = None"
proof -
  from assms(3) have nonempty: "length refs \<noteq> 0" by auto
  have "0 + length refs \<le> length (replicate (length refs) (None :: 'a Object option))" by simp
  from read_loop_dangling [OF assms(5) this] obtain db2 objs where
    loop: "read_loop b db1 0 refs (replicate (length refs) None) = (db2, Inr objs)"
    and len: "length objs = length (replicate (length refs) (None :: 'a Object option))"
    and none: "\<forall>j<length refs. kv db1 (DBKey b (refs ! j)) = None \<longrightarrow> objs ! (0 + j) = None"
    by blast
  have "GetIndexed h b db nm key = (db2, Inr objs)"
    using assms(1,2) nonempty loop by (simp add: GetIndexed_def readRefs_def)
  moreover have "objs ! j = None"
    using none assms(3,4) by simp
  ultimately show ?thesis using len by simp
qed

theorem GetIndexed_dangling_reference_is_nil_witness:
  "map_of (deref acct_heap (indexes acct_one)) ''name'' = Some name_index \<and>
   GetAt name_index dangling_db ''bob'' =
     (dangling_db\<lparr>calls := [GetCall ''acct_name:bob'']\<rparr>, Inr [''k2'']) \<and>
   kv (dangling_db\<lparr>calls := [GetCall ''acct_name:bob'']\<rparr>) (DBKey acct_one ([''k2''] ! 0)) = None \<and>
   (\<exists>db2 objs. GetIndexed acct_heap acct_one dangling_db ''name'' ''bob'' = (db2, Inr objs) \<and>
      length objs = length [''k2''] \<and> objs ! 0 = None)"
proof -
  let ?db1 = "dangling_db\<lparr>calls := [GetCall ''acct_name:bob'']\<rparr>"
  have resolved: "map_of (deref acct_heap (indexes acct_one)) ''name'' = Some name_index"
    by (simp add: deref_def acct_heap_def acct_one_def acct_plain_def)
  have refs: "GetAt name_index dangling_db ''bob'' = (?db1, Inr [''k2''])"
    by (simp add: name_index_def plain_index_def KVStore_Get_def dangling_db_def)
  have pos: "0 < length [''k2'']" by simp
  have absent: "kv ?db1 (DBKey acct_one ([''k2''] ! 0)) = None"
    by (simp add: dangling_db_def DBKey_def acct_one_def acct_plain_def)
  have readable: "\<forall>k\<in>set [''k2'']. \<forall>bz. kv ?db1 (DBKey acct_one k) = Some bz \<longrightarrow>
      (\<exists>ob. Unmarshal (Clone (proto acct_one)) bz = Inr ob)"
    by (simp add: dangling_db_def DBKey_def acct_one_def acct_plain_def)
  from resolved refs absent
    GetIndexed_dangling_reference_is_nil [OF resolved refs pos absent readable]
  show ?thesis by (intro conjI)
qed

text \<open>
  The claim as the specification states it fails on this input: the index \<open>name\<close>
  lists the key \<open>k2\<close> under \<open>bob\<close>, no record is stored for \<open>k2\<close>, and \<^verbatim>\<open>GetIndexed\<close>
  returns a nil error with a nil entry.
\<close>

theorem GetIndexed_dangling_reference_no_error:
  "map_of (deref acct_heap (indexes acct_one)) ''name'' = Some name_index \<and>
   snd (GetAt name_index dangling_db ''bob'') = Inr [''k2''] \<and>
   kv dangling_db (DBKey acct_one ''k2'') = None \<and>
   snd (GetIndexed acct_heap acct_one dangling_db ''name'' ''bob'') = Inr [None]"
proof (intro conjI)
  show resolved: "map_of (deref acct_heap (indexes acct_one)) ''name'' = Some name_index"
    by (simp add: deref_def acct_heap_def acct_one_def acct_plain_def)
  show "snd (GetAt name_index dangling_db ''bob'') = Inr [''k2'']"
    by (simp add: name_index_def plain_index_def KVStore_Get_def dangling_db_def)
  show "kv dangling_db (DBKey acct_one ''k2'') = None"
    by (simp add: dangling_db_def DBKey_def acct_one_def acct_plain_def)
  show "snd (GetIndexed acct_heap acct_one dangling_db ''name'' ''bob'') = Inr [None]"
    by (simp add: GetIndexed_def resolved)
      (simp add: readRefs_def Bucket_Get_def KVStore_Get_def DBKey_def
        acct_one_def acct_plain_def name_index_def plain_index_def dangling_db_def)
qed

section \<open>The last-modified decorator: binding and forwarding\<close>

text \<open>
  C8. \<^verbatim>\<open>Bind\<close> of an unbound last-modified bucket panics exactly when \<^verbatim>\<open>weave.GetHeight\<close>
  reports that the context carries no block height; when it reports a height, \<^verbatim>\<open>Bind\<close>
  returns the bound bucket with that height around the same wrapped bucket.
\<close>

theorem Bind_panics_iff_no_height:
  "((\<exists>msg. unboundLastModifiedBucket_Bind GetHeight u ctx = Panicked msg) \<longleftrightarrow>
      \<not> snd (GetHeight ctx)) \<and>
   (snd (GetHeight ctx) \<longrightarrow>
      unboundLastModifiedBucket_Bind GetHeight u ctx =
        Returned \<lparr>blockHeight = fst (GetHeight ctx), bucket = u_bucket u\<rparr>)"
  by (cases "GetHeight ctx") (simp add: unboundLastModifiedBucket_Bind_def)

theorem Bind_panics_iff_no_height_witness:
  "snd (GetHeight_sample (Some 42)) \<and>
   unboundLastModifiedBucket_Bind GetHeight_sample (WithLastModified sample_bucket) (Some 42) =
     Returned \<lparr>blockHeight = 42, bucket = sample_bucket\<rparr> \<and>
   \<not> snd (GetHeight_sample None) \<and>
   (\<exists>msg. unboundLastModifiedBucket_Bind GetHeight_sample (WithLastModified sample_bucket) None =
      Panicked msg)"
proof -
  have present: "snd (GetHeight_sample (Some 42))" and height: "fst (GetHeight_sample (Some 42)) = 42"
    by (simp_all add: GetHeight_sample_def)
  have absent: "\<not> snd (GetHeight_sample None)"
    by (simp add: GetHeight_sample_def)
  have wrapped: "u_bucket (WithLastModified sample_bucket) = sample_bucket"
    by (simp add: WithLastModified_def)
  have "unboundLastModifiedBucket_Bind GetHeight_sample (WithLastModified sample_bucket) (Some 42) =
          Returned \<lparr>blockHeight = fst (GetHeight_sample (Some 42)),
                    bucket = u_bucket (WithLastModified sample_bucket)\<rparr>"
    using conjunct2 [OF Bind_panics_iff_no_height
        [of GetHeight_sample "WithLastModified sample_bucket" "Some 42"], rule_format, OF present] .
  then have bound: "unboundLastModifiedBucket_Bind GetHeight_sample (WithLastModified sample_bucket) (Some 42) =
          Returned \<lparr>blockHeight = 42, bucket = sample_bucket\<rparr>"
    by (simp only: height wrapped)
  have panics: "\<exists>msg. unboundLastModifiedBucket_Bind GetHeight_sample (WithLastModified sample_bucket) None =
          Panicked msg"
    using conjunct1 [OF Bind_panics_iff_no_height
        [of GetHeight_sample "WithLastModified sample_bucket" None]] absent by (rule iffD2)
  from present bound absent panics show ?thesis by (intro conjI)
qed

text \<open>
  C7, as the code has it. \<^verbatim>\<open>Put\<close> of the bound bucket hands the wrapped bucket the very
  model it was given, whatever the height \<open>H\<close> it was bound at: the result does not
  depend on \<open>H\<close>, and nothing is stamped (the source only prints the metadata, under the
  comment \<^verbatim>\<open>TODO: set block height\<close>). \<^verbatim>\<open>One\<close> and \<^verbatim>\<open>ByIndex\<close> return what the wrapped
  bucket returns.
\<close>

theorem lastModifiedBucket_Put_forwards_model_unstamped:
  "snd (lastModifiedBucket_Put GetMetadata \<lparr>blockHeight = H, bucket = w\<rparr> db key m) = Put w db key m \<and>
   lastModifiedBucket_Put GetMetadata \<lparr>blockHeight = H, bucket = w\<rparr> db key m =
     lastModifiedBucket_Put GetMetadata \<lparr>blockHeight = H', bucket = w\<rparr> db key m \<and>
   lastModifiedBucket_One \<lparr>blockHeight = H, bucket = w\<rparr> db key dest = One w db key dest \<and>
   lastModifiedBucket_ByIndex \<lparr>blockHeight = H, bucket = w\<rparr> db indexName key dests =
     ByIndex w db indexName key dests"
  by (simp add: lastModifiedBucket_Put_def lastModifiedBucket_One_def
      lastModifiedBucket_ByIndex_def Let_def)

end
